theory Spec2Isabelle
  imports Complex_Main "HOL-Library.Sublist"
begin

section \<open>Python strings\<close>

text \<open>
  A Python \<open>str\<close> is modelled as a HOL \<open>string\<close> over ASCII text. The operations below are
  the ones the program calls: \<open>str.strip\<close>, \<open>str.lower\<close>, the substring test \<open>a in b\<close>,
  \<open>str.replace\<close>, \<open>str.startswith\<close> and \<open>str.endswith\<close>.
\<close>

text \<open>The ASCII characters for which \<open>str.isspace\<close> holds: 9 to 13 and 28 to 32.\<close>

definition is_space :: "char \<Rightarrow> bool" where
  "is_space c =
     (let n = (of_char c :: nat) in (9 \<le> n \<and> n \<le> 13) \<or> (28 \<le> n \<and> n \<le> 32))"

definition py_strip :: "string \<Rightarrow> string" where
  "py_strip s = rev (dropWhile is_space (rev (dropWhile is_space s)))"

definition lower_char :: "char \<Rightarrow> char" where
  "lower_char c =
     (case map_of (zip ''ABCDEFGHIJKLMNOPQRSTUVWXYZ'' ''abcdefghijklmnopqrstuvwxyz'') c of
        Some d \<Rightarrow> d
      | None \<Rightarrow> c)"

definition py_lower :: "string \<Rightarrow> string" where
  "py_lower s = map lower_char s"

text \<open>\<open>sub in s\<close>: \<open>sub\<close> starts at some position of \<open>s\<close> (the empty string is in every string).\<close>

fun py_in :: "string \<Rightarrow> string \<Rightarrow> bool" where
  "py_in sub [] = (sub = [])"
| "py_in sub (c # cs) = (prefix sub (c # cs) \<or> py_in sub cs)"

text \<open>
  \<open>s.replace(old, new)\<close> replaces the occurrences of \<open>old\<close> from left to right, without overlap.
  With an empty \<open>old\<close> Python puts \<open>new\<close> before every character and at the end.
\<close>

fun replace_nonempty :: "string \<Rightarrow> string \<Rightarrow> string \<Rightarrow> string" where
  "replace_nonempty [] old new = []"
| "replace_nonempty (c # cs) old new =
     (if prefix old (c # cs)
      then new @ replace_nonempty (drop (length old - 1) cs) old new
      else c # replace_nonempty cs old new)"

definition py_replace :: "string \<Rightarrow> string \<Rightarrow> string \<Rightarrow> string" where
  "py_replace s old new =
     (if old = [] then new @ concat (map (\<lambda>c. c # new) s)
      else replace_nonempty s old new)"

definition startswith :: "string \<Rightarrow> string \<Rightarrow> bool" where
  "startswith s p = prefix p s"

definition endswith :: "string \<Rightarrow> string \<Rightarrow> bool" where
  "endswith s p = suffix p s"

section \<open>Edits\<close>

text \<open>
  An edit is a Python dict with string keys; the program reads the keys \<open>type\<close>,
  \<open>original_text\<close>, \<open>new_text\<close> and \<open>text_to_highlight\<close> with \<open>mod[key]\<close>, which raises
  \<open>KeyError\<close> on a missing key. The dict is an association list read with \<open>map_of\<close>; the
  values are strings.
\<close>

type_synonym edit = "(string \<times> string) list"

record edit_set =
  modifications :: "edit list"
  summary :: string

section \<open>The fallback heuristic (utils.py)\<close>

text \<open>
  The pattern \<open>change\s+['"]([^'"]+)['"]\s+to\s+['"]([^'"]+)['"]\<close>. Every repetition in it is
  followed by a character outside its own class (a quote after \<open>\s+\<close> and after \<open>[^'"]+\<close>,
  the letter t after \<open>\s+\<close>), so at a fixed start position the greedy match is the only
  match: each repetition takes the longest run. The pieces below consume one element of the
  pattern each and return the rest of the input.
\<close>

definition is_quote :: "char \<Rightarrow> bool" where
  "is_quote c = (c = CHR 0x27 \<or> c = CHR 0x22)"

definition lit :: "string \<Rightarrow> string \<Rightarrow> string option" where
  "lit p s = (if prefix p s then Some (drop (length p) s) else None)"

definition spaces1 :: "string \<Rightarrow> string option" where
  "spaces1 s = (if takeWhile is_space s = [] then None else Some (dropWhile is_space s))"

definition quote1 :: "string \<Rightarrow> string option" where
  "quote1 s = (case s of [] \<Rightarrow> None | c # r \<Rightarrow> if is_quote c then Some r else None)"

definition nonquotes1 :: "string \<Rightarrow> (string \<times> string) option" where
  "nonquotes1 s =
     (if takeWhile (\<lambda>c. \<not> is_quote c) s = [] then None
      else Some (takeWhile (\<lambda>c. \<not> is_quote c) s, dropWhile (\<lambda>c. \<not> is_quote c) s))"

text \<open>The pattern matched at the start of \<open>s\<close>; the result is (group 1, group 2).\<close>

definition match_here :: "string \<Rightarrow> (string \<times> string) option" where
  "match_here s =
     Option.bind (lit ''change'' s) (\<lambda>r.
     Option.bind (spaces1 r) (\<lambda>r.
     Option.bind (quote1 r) (\<lambda>r.
     Option.bind (nonquotes1 r) (\<lambda>(a, r).
     Option.bind (quote1 r) (\<lambda>r.
     Option.bind (spaces1 r) (\<lambda>r.
     Option.bind (lit ''to'' r) (\<lambda>r.
     Option.bind (spaces1 r) (\<lambda>r.
     Option.bind (quote1 r) (\<lambda>r.
     Option.bind (nonquotes1 r) (\<lambda>(b, r).
     Option.bind (quote1 r) (\<lambda>_. Some (a, b))))))))))))"

text \<open>\<open>re.search\<close>: the match at the leftmost start position that has one.\<close>

fun re_search :: "string \<Rightarrow> (string \<times> string) option" where
  "re_search [] = match_here []"
| "re_search (c # cs) =
     (case match_here (c # cs) of Some g \<Rightarrow> Some g | None \<Rightarrow> re_search cs)"

definition replace_edit :: "string \<Rightarrow> string \<Rightarrow> edit" where
  "replace_edit old_text new_text =
     [(''type'', ''replace''),
      (''original_text'', old_text),
      (''new_text'', new_text),
      (''context'', ''Found in text: '' @ old_text)]"

definition highlight_edit :: "string \<Rightarrow> edit" where
  "highlight_edit term =
     [(''type'', ''highlight''),
      (''text_to_highlight'', term),
      (''context'', ''Found financial term: '' @ term),
      (''reason'', ''Contains financial content'')]"

definition financial_terms :: "string list" where
  "financial_terms =
     [''financial'', ''money'', ''cost'', ''budget'', ''revenue'', ''profit'',
      ''investment'', ''price'', ''fee'']"

text \<open>The loop over the terms, left at the first term found (\<open>break\<close>).\<close>

fun scan_terms :: "string list \<Rightarrow> string \<Rightarrow> edit list" where
  "scan_terms [] original_text = []"
| "scan_terms (term # terms) original_text =
     (if py_in term (py_lower original_text) then [highlight_edit term]
      else scan_terms terms original_text)"

definition fallback_replace :: "string \<Rightarrow> string \<Rightarrow> edit list" where
  "fallback_replace original_text modification_query =
     (if py_in ''change'' (py_lower modification_query) \<and> py_in ''to'' (py_lower modification_query)
      then (case re_search (py_lower modification_query) of
              None \<Rightarrow> []
            | Some (old_text, new_text) \<Rightarrow>
                if py_in old_text original_text then [replace_edit old_text new_text] else [])
      else [])"

definition fallback_highlight :: "string \<Rightarrow> string \<Rightarrow> edit list" where
  "fallback_highlight original_text modification_query =
     (if py_in ''highlight'' (py_lower modification_query)
      then scan_terms financial_terms original_text
      else [])"

definition create_fallback_modification :: "string \<Rightarrow> string \<Rightarrow> edit_set" where
  "create_fallback_modification original_text modification_query =
     \<lparr>modifications =
        fallback_replace original_text modification_query
        @ fallback_highlight original_text modification_query,
      summary = ''Fallback modification created for: '' @ modification_query\<rparr>"

text \<open>The instruction of the spec's example; it ends with a single quote.\<close>

definition chapter_instruction :: string where
  "chapter_instruction =
     ''Change 'Chapter 2: Background' to 'Chapter 2: Fundamentals'' @ [CHR 0x27]"

section \<open>Pages and spans (pdf_processor.py)\<close>

text \<open>
  Coordinates, sizes and page dimensions are Python floats; they are modelled as reals. The
  only arithmetic on them is the baseline offset \<open>bbox[1] + size\<close>.
\<close>

type_synonym bbox = "real \<times> real \<times> real \<times> real"

text \<open>A colour is PyMuPDF's sRGB integer or a tuple, as in config.py.\<close>

datatype color = ColorInt int | ColorTuple int int int

definition DEFAULT_FONT_SIZE :: real where
  "DEFAULT_FONT_SIZE = 12"

definition DEFAULT_HIGHLIGHT_COLOR :: color where
  "DEFAULT_HIGHLIGHT_COLOR = ColorTuple 1 1 0"

definition DEFAULT_TEXT_COLOR :: color where
  "DEFAULT_TEXT_COLOR = ColorTuple 0 0 0"

text \<open>An entry of \<open>text_blocks\<close>: the dict with keys text, bbox, size, font and color.\<close>

record text_block =
  block_text :: string
  block_bbox :: bbox
  block_size :: real
  block_font :: string
  block_color :: color

record page_data =
  page_num :: nat
  page_width :: real
  page_height :: real
  text_blocks :: "text_block list"

subsection \<open>extract_pdf_data\<close>

text \<open>
  What PyMuPDF hands to the extractor: a page has a rectangle and the blocks of
  \<open>page.get_text("dict")\<close>; a block with the key \<open>lines\<close> is a text block, any other block
  (an image) has no lines; a line has spans.
\<close>

record fitz_span =
  span_text :: string
  span_bbox :: bbox
  span_size :: real
  span_font :: string
  span_color :: int

datatype fitz_block = TextBlock "fitz_span list list" | ImageBlock

record fitz_page =
  rect_width :: real
  rect_height :: real
  blocks :: "fitz_block list"

definition record_span :: "fitz_span \<Rightarrow> text_block" where
  "record_span sp =
     \<lparr>block_text = span_text sp,
      block_bbox = span_bbox sp,
      block_size = span_size sp,
      block_font = span_font sp,
      block_color = (if span_color sp \<noteq> 0 then ColorInt (span_color sp)
                     else DEFAULT_TEXT_COLOR)\<rparr>"

fun collect_spans :: "fitz_span list \<Rightarrow> text_block list" where
  "collect_spans [] = []"
| "collect_spans (sp # spans) =
     (if py_strip (span_text sp) \<noteq> [] then record_span sp # collect_spans spans
      else collect_spans spans)"

fun collect_lines :: "fitz_span list list \<Rightarrow> text_block list" where
  "collect_lines [] = []"
| "collect_lines (line # lines) = collect_spans line @ collect_lines lines"

fun collect_blocks :: "fitz_block list \<Rightarrow> text_block list" where
  "collect_blocks [] = []"
| "collect_blocks (TextBlock lines # bs) = collect_lines lines @ collect_blocks bs"
| "collect_blocks (ImageBlock # bs) = collect_blocks bs"

text \<open>The loop over \<open>range(len(doc))\<close>, from page number \<open>n\<close> on.\<close>

fun extract_pages :: "nat \<Rightarrow> fitz_page list \<Rightarrow> page_data list" where
  "extract_pages n [] = []"
| "extract_pages n (page # pages) =
     \<lparr>page_num = n,
      page_width = rect_width page,
      page_height = rect_height page,
      text_blocks = collect_blocks (blocks page)\<rparr> # extract_pages (Suc n) pages"

text \<open>
  The document is \<open>None\<close> when \<open>fitz.open\<close> (or anything after it) raises: the handler
  returns the empty list.
\<close>

definition extract_pdf_data :: "fitz_page list option \<Rightarrow> page_data list" where
  "extract_pdf_data doc = (case doc of None \<Rightarrow> [] | Some pages \<Rightarrow> extract_pages 0 pages)"

subsection \<open>apply_modifications_to_pdf\<close>

text \<open>
  The output document is the log of the calls the program makes on each new page, in the
  order it makes them. The library decides which calls raise: \<open>raises\<close> is a parameter. A
  call of \<open>AddHighlightAnnot\<close> stands for the three statements of the \<open>try\<close> block
  (\<open>add_highlight_annot\<close>, \<open>set_colors\<close>, \<open>update\<close>).
\<close>

datatype call =
    InsertText "real \<times> real" string real "color option"
  | AddHighlightAnnot bbox color
  | DrawRect bbox color real

record out_page =
  width :: real
  height :: real
  calls :: "call list"

datatype py_exception = KeyError string | JSONDecodeError | RecursionError | OtherError

text \<open>
  The loop over the modifications for one span (lines 81 to 84): \<open>original_text\<close> is the
  span's own text, \<open>modified_text\<close> the text so far.
\<close>

fun apply_replacements :: "edit list \<Rightarrow> string \<Rightarrow> string \<Rightarrow> py_exception + string" where
  "apply_replacements [] original_text modified_text = Inr modified_text"
| "apply_replacements (m # ms) original_text modified_text =
     (case map_of m ''type'' of
        None \<Rightarrow> Inl (KeyError ''type'')
      | Some ty \<Rightarrow>
          if ty = ''replace'' then
            (case map_of m ''original_text'' of
               None \<Rightarrow> Inl (KeyError ''original_text'')
             | Some old \<Rightarrow>
                 if py_in old original_text then
                   (case map_of m ''new_text'' of
                      None \<Rightarrow> Inl (KeyError ''new_text'')
                    | Some new \<Rightarrow>
                        apply_replacements ms original_text (py_replace modified_text old new))
                 else apply_replacements ms original_text modified_text)
          else apply_replacements ms original_text modified_text)"

definition primary_call :: "text_block \<Rightarrow> string \<Rightarrow> call" where
  "primary_call block modified_text =
     (case block_bbox block of (x0, y0, x1, y1) \<Rightarrow>
        InsertText (x0, y0 + block_size block) modified_text (block_size block)
          (Some (block_color block)))"

definition fallback_call :: "text_block \<Rightarrow> string \<Rightarrow> call" where
  "fallback_call block modified_text =
     (case block_bbox block of (x0, y0, x1, y1) \<Rightarrow>
        InsertText (x0, y0 + DEFAULT_FONT_SIZE) modified_text DEFAULT_FONT_SIZE None)"

text \<open>
  The two nested \<open>try\<close> blocks: the second call is made when the first raises; when the
  second raises too, nothing more happens.
\<close>

definition draw_calls :: "(call \<Rightarrow> bool) \<Rightarrow> text_block \<Rightarrow> string \<Rightarrow> call list" where
  "draw_calls raises block modified_text =
     (if raises (primary_call block modified_text)
      then [primary_call block modified_text, fallback_call block modified_text]
      else [primary_call block modified_text])"

definition insert_span :: "(call \<Rightarrow> bool) \<Rightarrow> text_block \<Rightarrow> string \<Rightarrow> call list" where
  "insert_span raises block modified_text =
     (if py_strip modified_text \<noteq> [] then draw_calls raises block modified_text else [])"

fun draw_blocks ::
  "(call \<Rightarrow> bool) \<Rightarrow> edit list \<Rightarrow> text_block list \<Rightarrow> py_exception + call list" where
  "draw_blocks raises mods [] = Inr []"
| "draw_blocks raises mods (block # bs) =
     (case apply_replacements mods (block_text block) (block_text block) of
        Inl e \<Rightarrow> Inl e
      | Inr modified_text \<Rightarrow>
          (case draw_blocks raises mods bs of
             Inl e \<Rightarrow> Inl e
           | Inr cs \<Rightarrow> Inr (insert_span raises block modified_text @ cs)))"

definition mark :: "(call \<Rightarrow> bool) \<Rightarrow> bbox \<Rightarrow> call list" where
  "mark raises bb =
     (if raises (AddHighlightAnnot bb DEFAULT_HIGHLIGHT_COLOR)
      then [AddHighlightAnnot bb DEFAULT_HIGHLIGHT_COLOR, DrawRect bb DEFAULT_HIGHLIGHT_COLOR 2]
      else [AddHighlightAnnot bb DEFAULT_HIGHLIGHT_COLOR])"

text \<open>The inner loop of lines 113 to 128, for one highlight edit.\<close>

fun highlight_blocks ::
  "(call \<Rightarrow> bool) \<Rightarrow> edit \<Rightarrow> text_block list \<Rightarrow> py_exception + call list" where
  "highlight_blocks raises m [] = Inr []"
| "highlight_blocks raises m (block # bs) =
     (case map_of m ''text_to_highlight'' of
        None \<Rightarrow> Inl (KeyError ''text_to_highlight'')
      | Some target \<Rightarrow>
          (case highlight_blocks raises m bs of
             Inl e \<Rightarrow> Inl e
           | Inr cs \<Rightarrow>
               Inr ((if py_in (py_lower target) (py_lower (block_text block))
                     then mark raises (block_bbox block) else []) @ cs)))"

fun add_highlights ::
  "(call \<Rightarrow> bool) \<Rightarrow> edit list \<Rightarrow> text_block list \<Rightarrow> py_exception + call list" where
  "add_highlights raises [] bs = Inr []"
| "add_highlights raises (m # ms) bs =
     (case map_of m ''type'' of
        None \<Rightarrow> Inl (KeyError ''type'')
      | Some ty \<Rightarrow>
          (case (if ty = ''highlight'' then highlight_blocks raises m bs else Inr []) of
             Inl e \<Rightarrow> Inl e
           | Inr cs \<Rightarrow>
               (case add_highlights raises ms bs of
                  Inl e \<Rightarrow> Inl e
                | Inr cs' \<Rightarrow> Inr (cs @ cs'))))"

definition build_page ::
  "(call \<Rightarrow> bool) \<Rightarrow> edit list \<Rightarrow> page_data \<Rightarrow> py_exception + out_page" where
  "build_page raises mods page =
     (case draw_blocks raises mods (text_blocks page) of
        Inl e \<Rightarrow> Inl e
      | Inr tcs \<Rightarrow>
          (case add_highlights raises mods (text_blocks page) of
             Inl e \<Rightarrow> Inl e
           | Inr hcs \<Rightarrow>
               Inr \<lparr>width = page_width page, height = page_height page, calls = tcs @ hcs\<rparr>))"

fun build_document ::
  "(call \<Rightarrow> bool) \<Rightarrow> edit list \<Rightarrow> page_data list \<Rightarrow> py_exception + out_page list" where
  "build_document raises mods [] = Inr []"
| "build_document raises mods (page # pages) =
     (case build_page raises mods page of
        Inl e \<Rightarrow> Inl e
      | Inr p \<Rightarrow>
          (case build_document raises mods pages of
             Inl e \<Rightarrow> Inl e
           | Inr ps \<Rightarrow> Inr (p # ps)))"

text \<open>
  Files are a map from path to content. \<open>save\<close> is the library's serialisation: \<open>None\<close>
  when \<open>doc.save\<close> raises, else the bytes it writes. Every exception ends in the handler of
  line 135, which returns False.
\<close>

type_synonym bytes = string

type_synonym files = "string \<Rightarrow> bytes option"

definition apply_modifications_to_pdf ::
  "(call \<Rightarrow> bool) \<Rightarrow> (out_page list \<Rightarrow> bytes option) \<Rightarrow> page_data list \<Rightarrow> edit list
     \<Rightarrow> string \<Rightarrow> files \<Rightarrow> bool \<times> files" where
  "apply_modifications_to_pdf raises save pages_data mods output_path fs =
     (case build_document raises mods pages_data of
        Inl e \<Rightarrow> (False, fs)
      | Inr doc \<Rightarrow>
          (case save doc of
             None \<Rightarrow> (False, fs)
           | Some content \<Rightarrow> (True, fs(output_path \<mapsto> content))))"

subsection \<open>generate_modified_pdf\<close>

text \<open>
  \<open>NamedTemporaryFile(delete=False)\<close> creates an empty file at a path of its choosing,
  \<open>temp_path\<close>. When \<open>success\<close> is False the function raises and its handler returns
  \<open>b""\<close>; \<open>os.unlink\<close> is the statement after the read.
\<close>

definition generate_modified_pdf ::
  "(call \<Rightarrow> bool) \<Rightarrow> (out_page list \<Rightarrow> bytes option) \<Rightarrow> string \<Rightarrow> page_data list
     \<Rightarrow> edit list \<Rightarrow> files \<Rightarrow> bytes \<times> files" where
  "generate_modified_pdf raises save temp_path pages_data mods fs =
     (case apply_modifications_to_pdf raises save pages_data mods temp_path
             (fs(temp_path \<mapsto> [])) of
        (success, fs') \<Rightarrow>
          if \<not> success then ([], fs')
          else (case fs' temp_path of
                  None \<Rightarrow> ([], fs')
                | Some pdf_bytes \<Rightarrow> (pdf_bytes, fs'(temp_path := None))))"

section \<open>The edit proposer (gemini_client.py)\<close>

text \<open>Lines 103 to 113: the response is stripped, the code fence removed, and stripped again.\<close>

definition strip_fences :: "string \<Rightarrow> string" where
  "strip_fences response =
     (let t0 = py_strip response;
          t1 = (if startswith t0 ''```json'' then drop 7 t0 else t0);
          t2 = (if startswith t1 ''```'' then drop 3 t1 else t1);
          t3 = (if endswith t2 ''```'' then take (length t2 - 3) t2 else t2)
      in py_strip t3)"

text \<open>
  The function returns what \<open>json.loads\<close> gives, of a type \<open>'j\<close> left open, or a dict with
  the keys \<open>modifications\<close> and \<open>summary\<close>.
\<close>

datatype 'j llm_result = Parsed 'j | Edits edit_set

text \<open>
  The body of the outer \<open>try\<close>. The model and the JSON parser are parameters:
  \<open>generate_content\<close> gets the two variable parts of the prompt (the text cut to 2000
  characters and the request) and is \<open>None\<close> when the call or \<open>response.text\<close> raises;
  \<open>json_loads\<close> returns the parsed value or raises: \<open>JSONDecodeError\<close> on text that is
  not JSON, and on some such text another exception (\<open>RecursionError\<close> on a long run of
  opening brackets). The inner handler (line 119) catches \<open>JSONDecodeError\<close> only; any
  other exception leaves the body.
\<close>

definition llm_try ::
  "(string \<Rightarrow> string \<Rightarrow> string option) \<Rightarrow> (string \<Rightarrow> py_exception + 'j) \<Rightarrow> string \<Rightarrow> string
     \<Rightarrow> py_exception + 'j llm_result" where
  "llm_try generate_content json_loads original_text modification_query =
     (case generate_content (take 2000 original_text) modification_query of
        None \<Rightarrow> Inl OtherError
      | Some response \<Rightarrow>
          (case json_loads (strip_fences response) of
             Inr result \<Rightarrow> Inr (Parsed result)
           | Inl e \<Rightarrow>
               if e = JSONDecodeError
               then Inr (Edits (create_fallback_modification original_text modification_query))
               else Inl e))"

definition error_result :: edit_set where
  "error_result = \<lparr>modifications = [], summary = ''Error occurred''\<rparr>"

text \<open>The outer handler (line 127) turns every exception of the body into \<open>error_result\<close>.\<close>

definition get_llm_modifications ::
  "(string \<Rightarrow> string \<Rightarrow> string option) \<Rightarrow> (string \<Rightarrow> py_exception + 'j) \<Rightarrow> string \<Rightarrow> string
     \<Rightarrow> py_exception + 'j llm_result" where
  "get_llm_modifications generate_content json_loads original_text modification_query =
     (case llm_try generate_content json_loads original_text modification_query of
        Inl e \<Rightarrow> Inr (Edits error_result)
      | Inr result \<Rightarrow> Inr result)"

section \<open>Notions used in the statements\<close>

text \<open>An edit that carries the keys its type needs.\<close>

definition well_formed_edit :: "edit \<Rightarrow> bool" where
  "well_formed_edit m =
     (case map_of m ''type'' of
        None \<Rightarrow> False
      | Some ty \<Rightarrow>
          (ty = ''replace'' \<longrightarrow>
             map_of m ''original_text'' \<noteq> None \<and> map_of m ''new_text'' \<noteq> None)
          \<and> (ty = ''highlight'' \<longrightarrow> map_of m ''text_to_highlight'' \<noteq> None))"

text \<open>
  One Replace edit applied to the text so far, when its \<open>original_text\<close> is in the span's
  original text.
\<close>

definition replace_step :: "string \<Rightarrow> string \<Rightarrow> edit \<Rightarrow> string" where
  "replace_step original current m =
     (case (map_of m ''type'', map_of m ''original_text'', map_of m ''new_text'') of
        (Some ty, Some old, Some new) \<Rightarrow>
          if ty = ''replace'' \<and> py_in old original then py_replace current old new else current
      | _ \<Rightarrow> current)"

text \<open>
  The step in the words of the specification: the edit is applied when its \<open>original_text\<close>
  is in the span's current text.
\<close>

definition claimed_step :: "string \<Rightarrow> edit \<Rightarrow> string" where
  "claimed_step current m =
     (case (map_of m ''type'', map_of m ''original_text'', map_of m ''new_text'') of
        (Some ty, Some old, Some new) \<Rightarrow>
          if ty = ''replace'' \<and> py_in old current then py_replace current old new else current
      | _ \<Rightarrow> current)"

text \<open>The spans of a page in reading order: those of its text blocks, line by line.\<close>

definition page_spans :: "fitz_page \<Rightarrow> fitz_span list" where
  "page_spans page =
     concat (map (\<lambda>b. case b of TextBlock lines \<Rightarrow> concat lines | ImageBlock \<Rightarrow> [])
       (blocks page))"

definition nonblank :: "fitz_span \<Rightarrow> bool" where
  "nonblank sp = (py_strip (span_text sp) \<noteq> [])"

text \<open>The replacement loop raises \<open>KeyError\<close> at edit \<open>m\<close>, for a span with text \<open>t\<close>.\<close>

definition replace_raises :: "string \<Rightarrow> edit \<Rightarrow> bool" where
  "replace_raises t m =
     (case map_of m ''type'' of
        None \<Rightarrow> True
      | Some ty \<Rightarrow>
          ty = ''replace'' \<and>
          (case map_of m ''original_text'' of
             None \<Rightarrow> True
           | Some old \<Rightarrow> py_in old t \<and> map_of m ''new_text'' = None))"

text \<open>The highlight loop raises \<open>KeyError\<close> at edit \<open>m\<close>, on a page with the spans \<open>bs\<close>.\<close>

definition highlight_raises :: "text_block list \<Rightarrow> edit \<Rightarrow> bool" where
  "highlight_raises bs m =
     (case map_of m ''type'' of
        None \<Rightarrow> True
      | Some ty \<Rightarrow> ty = ''highlight'' \<and> bs \<noteq> [] \<and> map_of m ''text_to_highlight'' = None)"

text \<open>
  Some edit lacks a key that the program reads: \<open>type\<close>, read on every page;
  \<open>original_text\<close> of a replace edit, read for every span; \<open>new_text\<close> of a replace edit,
  read when its \<open>original_text\<close> is in a span; \<open>text_to_highlight\<close> of a highlight edit,
  read for every span.
\<close>

definition missing_field_read :: "page_data list \<Rightarrow> edit list \<Rightarrow> bool" where
  "missing_field_read pages mods =
     (\<exists>m\<in>set mods.
        (case map_of m ''type'' of
           None \<Rightarrow> pages \<noteq> []
         | Some ty \<Rightarrow>
             (ty = ''replace'' \<and>
                (case map_of m ''original_text'' of
                   None \<Rightarrow> \<exists>p\<in>set pages. text_blocks p \<noteq> []
                 | Some old \<Rightarrow>
                     map_of m ''new_text'' = None
                     \<and> (\<exists>p\<in>set pages. \<exists>b\<in>set (text_blocks p). py_in old (block_text b))))
             \<or> (ty = ''highlight'' \<and> map_of m ''text_to_highlight'' = None
                 \<and> (\<exists>p\<in>set pages. text_blocks p \<noteq> []))))"

text \<open>
  The highlight calls of a page in the words of the specification: for every Highlight edit,
  in order, and every span of the page, in order, whose lowered original text contains the
  lowered target, the highlight annotation on the span's bounding box and, when the
  annotation raises, the rectangle outline of width 2 on the same box.
\<close>

definition highlight_marks :: "(call \<Rightarrow> bool) \<Rightarrow> edit list \<Rightarrow> text_block list \<Rightarrow> call list" where
  "highlight_marks raises mods bs =
     concat (map (\<lambda>m.
         case map_of m ''text_to_highlight'' of
           None \<Rightarrow> []
         | Some target \<Rightarrow>
             concat (map (\<lambda>b.
                 if raises (AddHighlightAnnot (block_bbox b) DEFAULT_HIGHLIGHT_COLOR)
                 then [AddHighlightAnnot (block_bbox b) DEFAULT_HIGHLIGHT_COLOR,
                       DrawRect (block_bbox b) DEFAULT_HIGHLIGHT_COLOR 2]
                 else [AddHighlightAnnot (block_bbox b) DEFAULT_HIGHLIGHT_COLOR])
               (filter (\<lambda>b. py_in (py_lower target) (py_lower (block_text b))) bs)))
       (filter (\<lambda>m. map_of m ''type'' = Some ''highlight'') mods))"

definition is_insert_text :: "call \<Rightarrow> bool" where
  "is_insert_text c = (case c of InsertText pos t fs col \<Rightarrow> True | _ \<Rightarrow> False)"

section \<open>Example inputs\<close>

definition hello_span :: fitz_span where
  "hello_span =
     \<lparr>span_text = ''Hello'', span_bbox = (72, 72, 120, 84), span_size = 12,
      span_font = ''Helvetica'', span_color = 0\<rparr>"

definition blank_span :: fitz_span where
  "blank_span =
     \<lparr>span_text = ''  '', span_bbox = (120, 72, 126, 84), span_size = 12,
      span_font = ''Helvetica'', span_color = 0\<rparr>"

definition cost_span :: fitz_span where
  "cost_span =
     \<lparr>span_text = ''Total Cost'', span_bbox = (72, 100, 150, 110), span_size = 10,
      span_font = ''Times-Roman'', span_color = 255\<rparr>"

definition sample_doc :: "fitz_page list" where
  "sample_doc =
     [\<lparr>rect_width = 612, rect_height = 792,
       blocks = [ImageBlock, TextBlock [[hello_span, blank_span], [cost_span]]]\<rparr>,
      \<lparr>rect_width = 595, rect_height = 842, blocks = [ImageBlock]\<rparr>]"

definition hello_block :: text_block where
  "hello_block =
     \<lparr>block_text = ''Hello'', block_bbox = (72, 72, 120, 84), block_size = 12,
      block_font = ''Helvetica'', block_color = DEFAULT_TEXT_COLOR\<rparr>"

definition cost_block :: text_block where
  "cost_block =
     \<lparr>block_text = ''Total Cost'', block_bbox = (72, 100, 150, 110), block_size = 10,
      block_font = ''Times-Roman'', block_color = ColorInt 255\<rparr>"

definition sample_page :: page_data where
  "sample_page =
     \<lparr>page_num = 0, page_width = 612, page_height = 792,
      text_blocks = [hello_block, cost_block]\<rparr>"

definition blank_page :: page_data where
  "blank_page = \<lparr>page_num = 0, page_width = 595, page_height = 842, text_blocks = []\<rparr>"

text \<open>A library on which no call raises, and a \<open>save\<close> that writes four bytes.\<close>

definition never_raises :: "call \<Rightarrow> bool" where
  "never_raises c = False"

definition save_ok :: "out_page list \<Rightarrow> bytes option" where
  "save_ok doc = Some ''%PDF''"

text \<open>A library on which the highlight annotation of the second span raises.\<close>

definition annot_raises :: "call \<Rightarrow> bool" where
  "annot_raises c = (c = AddHighlightAnnot (72, 100, 150, 110) DEFAULT_HIGHLIGHT_COLOR)"


definition no_files :: files where
  "no_files = Map.empty"

text \<open>
  A model that answers with fenced text that is not JSON; a parser that rejects its input
  with \<open>JSONDecodeError\<close>, and one that gives up on it with \<open>RecursionError\<close>.
\<close>

definition fenced_reply :: "string \<Rightarrow> string \<Rightarrow> string option" where
  "fenced_reply original_text query = Some ''```json I cannot do that ```''"

definition rejects :: "string \<Rightarrow> py_exception + unit" where
  "rejects s = Inl JSONDecodeError"

definition overflows :: "string \<Rightarrow> py_exception + unit" where
  "overflows s = Inl RecursionError"

section \<open>Strings: substring test and replacement\<close>

lemma py_in_iff: "py_in sub s \<longleftrightarrow> (\<exists>pre suf. s = pre @ sub @ suf)"
proof (induction s)
  case Nil
  then show ?case by auto
next
  case (Cons c cs)
  have "(\<exists>pre suf. c # cs = pre @ sub @ suf) \<longleftrightarrow> sublist sub (c # cs)"
    by (simp add: sublist_def)
  also have "\<dots> \<longleftrightarrow> prefix sub (c # cs) \<or> sublist sub cs"
    by (rule sublist_Cons_right)
  also have "\<dots> \<longleftrightarrow> prefix sub (c # cs) \<or> py_in sub cs"
    using Cons.IH by (simp add: sublist_def)
  finally show ?case by simp
qed

lemma py_in_empty: "py_in [] s"
  by (induction s) auto

lemma replace_nonempty_absent: "\<not> py_in old s \<Longrightarrow> replace_nonempty s old new = s"
  by (induction s) auto

lemma py_replace_absent: "\<not> py_in old s \<Longrightarrow> py_replace s old new = s"
proof (cases "old = []")
  case True
  assume "\<not> py_in old s"
  with True show ?thesis by (simp add: py_in_empty)
next
  case False
  assume "\<not> py_in old s"
  with False show ?thesis by (simp add: py_replace_def replace_nonempty_absent)
qed

section \<open>The replacement pass over one span\<close>

lemma apply_replacements_foldl:
  "\<forall>m\<in>set mods. well_formed_edit m \<Longrightarrow>
     apply_replacements mods original current = Inr (foldl (replace_step original) current mods)"
proof (induction mods arbitrary: current)
  case Nil
  then show ?case by simp
next
  case (Cons m ms)
  from Cons.prems have wf: "well_formed_edit m" and rest: "\<forall>m\<in>set ms. well_formed_edit m"
    by simp_all
  from wf obtain ty where ty: "map_of m ''type'' = Some ty"
    by (auto simp: well_formed_edit_def split: option.splits)
  show ?case
  proof (cases "ty = ''replace''")
    case True
    with wf ty obtain old new where
      "map_of m ''original_text'' = Some old" "map_of m ''new_text'' = Some new"
      by (auto simp: well_formed_edit_def)
    with True ty show ?thesis
      by (simp add: replace_step_def Cons.IH [OF rest])
  next
    case False
    with ty show ?thesis
      by (simp add: replace_step_def Cons.IH [OF rest] split: option.splits)
  qed
qed

text \<open>
  C1 (as the code has it). For edits that carry their keys, the modified text of a span is
  the result of going through the edits in order and applying, as a global substitution on
  the text so far, every Replace edit whose \<open>original_text\<close> is a substring of the span's
  ORIGINAL text. A later edit works on the output of the earlier ones, but whether it is
  applied is decided on the original text.
\<close>

theorem replacements_guarded_by_original_text:
  assumes "\<forall>m\<in>set mods. well_formed_edit m"
  shows "apply_replacements mods t t = Inr (foldl (replace_step t) t mods)"
  using assms by (rule apply_replacements_foldl)

text \<open>
  On the text ab the edits a to b, b to c compound: the second edit rewrites the b that the
  first one produced.
\<close>

theorem replacements_guarded_by_original_text_witness:
  "well_formed_edit (replace_edit ''a'' ''b'') \<and> well_formed_edit (replace_edit ''b'' ''c'')
   \<and> apply_replacements [replace_edit ''a'' ''b'', replace_edit ''b'' ''c''] ''ab'' ''ab''
       = Inr ''cc''"
proof -
  have wf: "\<forall>m\<in>set [replace_edit ''a'' ''b'', replace_edit ''b'' ''c'']. well_formed_edit m"
    by (simp add: well_formed_edit_def replace_edit_def)
  have "foldl (replace_step ''ab'') ''ab'' [replace_edit ''a'' ''b'', replace_edit ''b'' ''c'']
          = ''cc''"
    by (simp add: replace_step_def replace_edit_def py_replace_def)
  with replacements_guarded_by_original_text [OF wf, of "''ab''"] wf show ?thesis
    by simp
qed

text \<open>
  C1 as stated fails: on the span text a, the edits a to b, b to c give b in the code (the
  second edit's \<open>original_text\<close> is not in the original text), while applying every edit whose
  \<open>original_text\<close> is in the current text gives c.
\<close>

theorem replacements_guard_on_current_text_fails:
  "apply_replacements [replace_edit ''a'' ''b'', replace_edit ''b'' ''c''] ''a'' ''a'' = Inr ''b''
   \<and> foldl claimed_step ''a'' [replace_edit ''a'' ''b'', replace_edit ''b'' ''c''] = ''c''"
  by (simp add: replace_edit_def claimed_step_def py_replace_def)

text \<open>
  C7. For a Replace edit, when the text that the pass produced no longer contains
  \<open>original_text\<close>, running the pass again on that text returns it unchanged; the
  substitution itself would leave it unchanged too.
\<close>

theorem replace_second_pass_noop:
  assumes "map_of m ''type'' = Some ''replace''"
      and "map_of m ''original_text'' = Some old"
      and "apply_replacements [m] t t = Inr t'"
      and "\<not> py_in old t'"
  shows "apply_replacements [m] t' t' = Inr t' \<and> py_replace t' old new = t'"
  using assms by (simp add: py_replace_absent)

theorem replace_second_pass_noop_witness:
  "apply_replacements [replace_edit ''cat'' ''dog''] ''a cat'' ''a cat'' = Inr ''a dog''
   \<and> \<not> py_in ''cat'' ''a dog''
   \<and> apply_replacements [replace_edit ''cat'' ''dog''] ''a dog'' ''a dog'' = Inr ''a dog''
   \<and> py_replace ''a dog'' ''cat'' ''x'' = ''a dog''"
proof -
  have h1: "map_of (replace_edit ''cat'' ''dog'') ''type'' = Some ''replace''"
    by (simp add: replace_edit_def)
  have h2: "map_of (replace_edit ''cat'' ''dog'') ''original_text'' = Some ''cat''"
    by (simp add: replace_edit_def)
  have h3: "apply_replacements [replace_edit ''cat'' ''dog''] ''a cat'' ''a cat'' = Inr ''a dog''"
    by (simp add: replace_edit_def py_replace_def)
  have h4: "\<not> py_in ''cat'' ''a dog''"
    by simp
  from replace_second_pass_noop [OF h1 h2 h3 h4, of "''x''"] h3 h4 show ?thesis
    by simp
qed

section \<open>The fallback heuristic\<close>

lemma chapter_query_lower:
  "py_lower chapter_instruction
     = ''change 'chapter 2: background' to 'chapter 2: fundamentals'' @ [CHR 0x27]"
  by (simp add: chapter_instruction_def py_lower_def lower_char_def)

lemma chapter_search:
  "re_search (py_lower chapter_instruction)
     = Some (''chapter 2: background'', ''chapter 2: fundamentals'')"
  unfolding chapter_query_lower
  by (simp add: match_here_def lit_def spaces1_def quote1_def nonquotes1_def is_space_def
      is_quote_def)

text \<open>
  What the heuristic returns for the instruction of the example: the captured groups are
  lower case, because the pattern is searched in the lowered instruction, and group 1 is
  looked up in the document text as it is.
\<close>

lemma chapter_fallback:
  "modifications (create_fallback_modification original_text chapter_instruction)
     = (if py_in ''chapter 2: background'' original_text
        then [replace_edit ''chapter 2: background'' ''chapter 2: fundamentals'']
        else [])"
proof -
  have "py_in ''change'' (py_lower chapter_instruction)"
    unfolding chapter_query_lower by simp
  moreover have "py_in ''to'' (py_lower chapter_instruction)"
    unfolding chapter_query_lower by simp
  moreover have "\<not> py_in ''highlight'' (py_lower chapter_instruction)"
    unfolding chapter_query_lower by simp
  ultimately show ?thesis
    by (simp add: create_fallback_modification_def fallback_replace_def fallback_highlight_def
        chapter_search)
qed

text \<open>
  C3 (the code at a failing input). The document text Chapter 2: Background contains the
  substring Chapter 2: Background, and the heuristic emits no edit for it: the lower-case
  capture chapter 2: background is not a substring of the capitalised text.
\<close>

theorem chapter_fallback_capitalised_text:
  "py_in ''Chapter 2: Background'' ''Chapter 2: Background''
   \<and> modifications (create_fallback_modification ''Chapter 2: Background'' chapter_instruction)
       = []"
  unfolding chapter_fallback by simp

lemma scan_terms_find:
  "scan_terms terms original_text =
     (case List.find (\<lambda>term. py_in term (py_lower original_text)) terms of
        None \<Rightarrow> []
      | Some term \<Rightarrow> [highlight_edit term])"
  by (induction terms) simp_all

lemma fallback_replace_shape:
  "fallback_replace original_text query = []
   \<or> (\<exists>a b. fallback_replace original_text query = [replace_edit a b])"
  by (auto simp: fallback_replace_def split: option.splits prod.splits)

lemma fallback_replace_types:
  "filter (\<lambda>e. map_of e ''type'' = Some ''highlight'') (fallback_replace original_text query) = []"
proof -
  have "filter (\<lambda>e. map_of e ''type'' = Some ''highlight'') [replace_edit a b] = []" for a b
    by (simp add: replace_edit_def)
  with fallback_replace_shape [of original_text query] show ?thesis
    by (elim disjE exE) (simp_all only: filter.simps)
qed

text \<open>
  The test of line 41 is made on the lowered instruction; an instruction that contains the
  word highlight in lower case passes it.
\<close>

lemma py_in_lower: "py_in sub s \<Longrightarrow> py_in (py_lower sub) (py_lower s)"
proof -
  assume "py_in sub s"
  then obtain pre suf where "s = pre @ sub @ suf"
    unfolding py_in_iff by blast
  then have "py_lower s = py_lower pre @ py_lower sub @ py_lower suf"
    by (simp add: py_lower_def)
  then show ?thesis
    unfolding py_in_iff by blast
qed

lemma highlight_in_lowered: "py_in ''highlight'' query \<Longrightarrow> py_in ''highlight'' (py_lower query)"
  using py_in_lower [of "''highlight''" query] by (simp add: py_lower_def lower_char_def)

text \<open>
  C8. When the lowered instruction contains the word highlight, the edits of type highlight
  in the result are: one edit, whose \<open>text_to_highlight\<close> is the first keyword of the
  list, in list order, that occurs in the lowered document text; and none when no keyword
  occurs. \<open>List.find\<close> returns the first element of the list that satisfies the test. The
  edit is the dict that line 46 builds for that keyword.
\<close>

theorem fallback_highlights_first_keyword:
  assumes "py_in ''highlight'' (py_lower query)"
  shows "map (\<lambda>e. map_of e ''text_to_highlight'')
           (filter (\<lambda>e. map_of e ''type'' = Some ''highlight'')
              (modifications (create_fallback_modification original_text query)))
         = (case List.find (\<lambda>term. py_in term (py_lower original_text))
                  [''financial'', ''money'', ''cost'', ''budget'', ''revenue'', ''profit'',
                   ''investment'', ''price'', ''fee''] of
              None \<Rightarrow> []
            | Some term \<Rightarrow> [Some term])
         \<and> filter (\<lambda>e. map_of e ''type'' = Some ''highlight'')
              (modifications (create_fallback_modification original_text query))
           = (case List.find (\<lambda>term. py_in term (py_lower original_text))
                    [''financial'', ''money'', ''cost'', ''budget'', ''revenue'', ''profit'',
                     ''investment'', ''price'', ''fee''] of
                None \<Rightarrow> []
              | Some term \<Rightarrow>
                  [[(''type'', ''highlight''), (''text_to_highlight'', term),
                    (''context'', ''Found financial term: '' @ term),
                    (''reason'', ''Contains financial content'')]])"
proof -
  have "filter (\<lambda>e. map_of e ''type'' = Some ''highlight'') (scan_terms terms original_text)
          = scan_terms terms original_text" for terms
    by (induction terms) (simp_all add: highlight_edit_def)
  with assms have hs: "filter (\<lambda>e. map_of e ''type'' = Some ''highlight'')
                         (modifications (create_fallback_modification original_text query))
                       = scan_terms financial_terms original_text"
    by (simp add: create_fallback_modification_def fallback_replace_types fallback_highlight_def)
  have found: "scan_terms financial_terms original_text
                 = (case List.find (\<lambda>term. py_in term (py_lower original_text))
                          [''financial'', ''money'', ''cost'', ''budget'', ''revenue'', ''profit'',
                           ''investment'', ''price'', ''fee''] of
                      None \<Rightarrow> []
                    | Some term \<Rightarrow>
                        [[(''type'', ''highlight''), (''text_to_highlight'', term),
                          (''context'', ''Found financial term: '' @ term),
                          (''reason'', ''Contains financial content'')]])"
    unfolding scan_terms_find financial_terms_def highlight_edit_def by (rule refl)
  show ?thesis
    unfolding hs found by (simp split: option.splits)
qed

text \<open>The text has budget and, later in the list, fee: only budget gets an edit.\<close>

theorem fallback_highlights_first_keyword_witness:
  "py_in ''highlight'' (py_lower ''highlight financial information'')
   \<and> filter (\<lambda>e. map_of e ''type'' = Some ''highlight'')
        (modifications (create_fallback_modification ''The Budget covers every fee''
           ''highlight financial information''))
      = [[(''type'', ''highlight''), (''text_to_highlight'', ''budget''),
          (''context'', ''Found financial term: budget''),
          (''reason'', ''Contains financial content'')]]
   \<and> map (\<lambda>e. map_of e ''text_to_highlight'')
        (filter (\<lambda>e. map_of e ''type'' = Some ''highlight'')
           (modifications (create_fallback_modification ''The Budget covers every fee''
              ''highlight financial information'')))
      = [Some ''budget'']"
proof -
  have h: "py_in ''highlight'' (py_lower ''highlight financial information'')"
    by (simp add: py_lower_def lower_char_def)
  have l: "py_lower ''The Budget covers every fee'' = ''the budget covers every fee''"
    by (simp add: py_lower_def lower_char_def)
  from fallback_highlights_first_keyword [OF h, of "''The Budget covers every fee''"] h
  show ?thesis
    by (simp add: l)
qed

section \<open>The span extractor\<close>

lemma collect_spans_eq: "collect_spans spans = map record_span (filter nonblank spans)"
  by (induction spans) (simp_all add: nonblank_def)

lemma collect_lines_eq:
  "collect_lines lines = map record_span (filter nonblank (concat lines))"
  by (induction lines) (simp_all add: collect_spans_eq)

lemma collect_blocks_eq:
  "collect_blocks bs =
     map record_span (filter nonblank
       (concat (map (\<lambda>b. case b of TextBlock lines \<Rightarrow> concat lines | ImageBlock \<Rightarrow> []) bs)))"
  by (induction bs rule: collect_blocks.induct) (simp_all add: collect_lines_eq)

lemma extract_pages_length: "length (extract_pages n pages) = length pages"
  by (induction pages arbitrary: n) simp_all

lemma extract_pages_nth:
  "i < length pages \<Longrightarrow>
     extract_pages n pages ! i =
       \<lparr>page_num = n + i,
        page_width = rect_width (pages ! i),
        page_height = rect_height (pages ! i),
        text_blocks = collect_blocks (blocks (pages ! i))\<rparr>"
proof (induction pages arbitrary: n i)
  case Nil
  then show ?case by simp
next
  case (Cons p ps)
  show ?case
  proof (cases i)
    case 0
    then show ?thesis by simp
  next
    case (Suc j)
    with Cons.prems have "j < length ps" by simp
    from Cons.IH [OF this, of "Suc n"] Suc show ?thesis by simp
  qed
qed

text \<open>
  C9. For a document that parses, the extractor returns one page record per page, the
  record at index \<open>i\<close> carrying page number \<open>i\<close> and the width and height of page \<open>i\<close>. Its
  spans are the page's spans whose text is not blank, in order, so a page without text
  blocks is in the list with no spans, and every recorded text is non-empty after
  stripping. A recorded span keeps its text, and has the default text colour when its
  source colour is 0.
\<close>

theorem span_extractor_pages:
  "length (extract_pdf_data (Some doc)) = length doc
   \<and> (\<forall>i<length doc.
        page_num (extract_pdf_data (Some doc) ! i) = i
        \<and> page_width (extract_pdf_data (Some doc) ! i) = rect_width (doc ! i)
        \<and> page_height (extract_pdf_data (Some doc) ! i) = rect_height (doc ! i)
        \<and> text_blocks (extract_pdf_data (Some doc) ! i)
            = map record_span (filter nonblank (page_spans (doc ! i)))
        \<and> ((\<forall>b\<in>set (blocks (doc ! i)). b = ImageBlock)
             \<longrightarrow> text_blocks (extract_pdf_data (Some doc) ! i) = [])
        \<and> (\<forall>b\<in>set (text_blocks (extract_pdf_data (Some doc) ! i)).
              py_strip (block_text b) \<noteq> []))
   \<and> (\<forall>sp. block_text (record_span sp) = span_text sp
          \<and> block_color (record_span sp)
              = (if span_color sp = 0 then DEFAULT_TEXT_COLOR else ColorInt (span_color sp)))"
proof (intro conjI allI impI)
  show "length (extract_pdf_data (Some doc)) = length doc"
    by (simp add: extract_pdf_data_def extract_pages_length)
next
  fix i assume i: "i < length doc"
  let ?p = "extract_pdf_data (Some doc) ! i"
  have p: "?p = \<lparr>page_num = i, page_width = rect_width (doc ! i),
                  page_height = rect_height (doc ! i),
                  text_blocks = collect_blocks (blocks (doc ! i))\<rparr>"
    using extract_pages_nth [OF i, of 0] by (simp add: extract_pdf_data_def)
  show "page_num ?p = i" "page_width ?p = rect_width (doc ! i)"
    "page_height ?p = rect_height (doc ! i)"
    by (simp_all add: p)
  show tb: "text_blocks ?p = map record_span (filter nonblank (page_spans (doc ! i)))"
    by (simp add: p collect_blocks_eq page_spans_def)
  show "\<forall>b\<in>set (text_blocks ?p). py_strip (block_text b) \<noteq> []"
    unfolding tb by (auto simp: nonblank_def record_span_def)
  assume img: "\<forall>b\<in>set (blocks (doc ! i)). b = ImageBlock"
  have "page_spans (doc ! i) = []"
    unfolding page_spans_def using img by (induction "blocks (doc ! i)") auto
  then show "text_blocks ?p = []"
    by (simp add: tb)
next
  fix sp
  show "block_text (record_span sp) = span_text sp"
    by (simp add: record_span_def)
  show "block_color (record_span sp)
          = (if span_color sp = 0 then DEFAULT_TEXT_COLOR else ColorInt (span_color sp))"
    by (simp add: record_span_def)
qed

text \<open>
  The sample document: page 0 has an image, two spans with text and a blank span; page 1 has
  an image only.
\<close>

theorem span_extractor_pages_witness:
  "length (extract_pdf_data (Some sample_doc)) = 2
   \<and> page_num (extract_pdf_data (Some sample_doc) ! 1) = 1
   \<and> page_width (extract_pdf_data (Some sample_doc) ! 1) = 595
   \<and> page_height (extract_pdf_data (Some sample_doc) ! 1) = 842
   \<and> text_blocks (extract_pdf_data (Some sample_doc) ! 1) = []
   \<and> text_blocks (extract_pdf_data (Some sample_doc) ! 0) = [hello_block, cost_block]"
proof -
  have len: "length sample_doc = 2"
    by (simp add: sample_doc_def)
  have i0: "0 < length sample_doc" and i1: "1 < length sample_doc"
    by (simp_all add: sample_doc_def)
  have dims: "rect_width (sample_doc ! 1) = 595" "rect_height (sample_doc ! 1) = 842"
    by (simp_all add: sample_doc_def)
  have img: "\<forall>b\<in>set (blocks (sample_doc ! 1)). b = ImageBlock"
    by (simp add: sample_doc_def)
  have spans: "map record_span (filter nonblank (page_spans (sample_doc ! 0)))
                 = [hello_block, cost_block]"
    by (simp add: sample_doc_def page_spans_def nonblank_def py_strip_def is_space_def
        hello_span_def blank_span_def cost_span_def record_span_def hello_block_def
        cost_block_def)
  note n = span_extractor_pages [of sample_doc, THEN conjunct1]
  note p0 = span_extractor_pages [of sample_doc, THEN conjunct2, THEN conjunct1, rule_format,
      OF i0]
  note p1 = span_extractor_pages [of sample_doc, THEN conjunct2, THEN conjunct1, rule_format,
      OF i1]
  from p1 img have empty: "text_blocks (extract_pdf_data (Some sample_doc) ! 1) = []"
    by blast
  from p0 spans have first: "text_blocks (extract_pdf_data (Some sample_doc) ! 0)
                               = [hello_block, cost_block]"
    by (simp only:)
  from p1 dims have second: "page_num (extract_pdf_data (Some sample_doc) ! 1) = 1"
    "page_width (extract_pdf_data (Some sample_doc) ! 1) = 595"
    "page_height (extract_pdf_data (Some sample_doc) ! 1) = 842"
    by (simp_all only:)
  from n len have "length (extract_pdf_data (Some sample_doc)) = 2"
    by (simp only:)
  with empty first second show ?thesis
    by (simp only: simp_thms)
qed

section \<open>When the applicator raises\<close>

lemma apply_replacements_fails:
  "isl (apply_replacements mods t cur) \<longleftrightarrow> (\<exists>m\<in>set mods. replace_raises t m)"
  by (induction mods arbitrary: cur) (auto simp: replace_raises_def split: option.splits)

lemma draw_blocks_fails:
  "isl (draw_blocks raises mods bs)
     \<longleftrightarrow> (\<exists>b\<in>set bs. \<exists>m\<in>set mods. replace_raises (block_text b) m)"
proof (induction bs)
  case Nil
  then show ?case by simp
next
  case (Cons b bs)
  have "isl (draw_blocks raises mods (b # bs))
          \<longleftrightarrow> isl (apply_replacements mods (block_text b) (block_text b))
              \<or> isl (draw_blocks raises mods bs)"
    by (simp split: sum.splits)
  then show ?case
    by (simp add: Cons.IH apply_replacements_fails)
qed

lemma highlight_blocks_fails:
  "isl (highlight_blocks raises m bs) \<longleftrightarrow> bs \<noteq> [] \<and> map_of m ''text_to_highlight'' = None"
  by (induction bs) (auto split: option.splits sum.splits)

lemma add_highlights_fails:
  "isl (add_highlights raises mods bs) \<longleftrightarrow> (\<exists>m\<in>set mods. highlight_raises bs m)"
proof (induction mods)
  case Nil
  then show ?case by simp
next
  case (Cons m ms)
  have "isl (add_highlights raises (m # ms) bs)
          \<longleftrightarrow> highlight_raises bs m \<or> isl (add_highlights raises ms bs)"
    using highlight_blocks_fails [of raises m bs]
    by (auto simp: highlight_raises_def split: option.splits sum.splits)
  then show ?case
    by (simp add: Cons.IH)
qed

lemma build_page_fails:
  "isl (build_page raises mods p)
     \<longleftrightarrow> (\<exists>m\<in>set mods. (\<exists>b\<in>set (text_blocks p). replace_raises (block_text b) m)
                         \<or> highlight_raises (text_blocks p) m)"
proof -
  have "isl (build_page raises mods p)
          \<longleftrightarrow> isl (draw_blocks raises mods (text_blocks p))
              \<or> isl (add_highlights raises mods (text_blocks p))"
    by (simp add: build_page_def split: sum.splits)
  then show ?thesis
    unfolding draw_blocks_fails add_highlights_fails by blast
qed

lemma build_document_fails:
  "isl (build_document raises mods pages) \<longleftrightarrow> (\<exists>p\<in>set pages. isl (build_page raises mods p))"
  by (induction pages) (auto split: sum.splits)

lemma edit_raises_iff:
  "(\<exists>p\<in>set pages. (\<exists>b\<in>set (text_blocks p). replace_raises (block_text b) m)
                     \<or> highlight_raises (text_blocks p) m)
   \<longleftrightarrow> (case map_of m ''type'' of
           None \<Rightarrow> pages \<noteq> []
         | Some ty \<Rightarrow>
             (ty = ''replace'' \<and>
                (case map_of m ''original_text'' of
                   None \<Rightarrow> \<exists>p\<in>set pages. text_blocks p \<noteq> []
                 | Some old \<Rightarrow>
                     map_of m ''new_text'' = None
                     \<and> (\<exists>p\<in>set pages. \<exists>b\<in>set (text_blocks p). py_in old (block_text b))))
             \<or> (ty = ''highlight'' \<and> map_of m ''text_to_highlight'' = None
                 \<and> (\<exists>p\<in>set pages. text_blocks p \<noteq> [])))"
proof (cases "map_of m ''type''")
  case None
  have "(\<exists>p. p \<in> set pages) \<longleftrightarrow> pages \<noteq> []"
    by (cases pages) auto
  with None show ?thesis
    by (auto simp: replace_raises_def highlight_raises_def)
next
  case (Some ty)
  have ne: "(\<exists>b\<in>set bs. True) \<longleftrightarrow> bs \<noteq> []" for bs :: "text_block list"
    by (cases bs) auto
  show ?thesis
  proof (cases "map_of m ''original_text''")
    case None
    with Some show ?thesis
      by (auto simp: replace_raises_def highlight_raises_def ne)
  next
    case (Some old)
    with \<open>map_of m ''type'' = Some ty\<close> show ?thesis
      by (auto simp: replace_raises_def highlight_raises_def)
  qed
qed

text \<open>Building the document raises exactly when an edit lacks a key that is read.\<close>

lemma build_document_fails_iff:
  "isl (build_document raises mods pages) \<longleftrightarrow> missing_field_read pages mods"
proof -
  have "isl (build_document raises mods pages)
          \<longleftrightarrow> (\<exists>m\<in>set mods. \<exists>p\<in>set pages.
                 (\<exists>b\<in>set (text_blocks p). replace_raises (block_text b) m)
                 \<or> highlight_raises (text_blocks p) m)"
    unfolding build_document_fails build_page_fails by blast
  then show ?thesis
    unfolding missing_field_read_def edit_raises_iff .
qed

section \<open>The calls made for well-formed edits\<close>

lemma draw_blocks_well_formed:
  assumes "\<forall>m\<in>set mods. well_formed_edit m"
  shows "draw_blocks raises mods bs =
           Inr (concat (map (\<lambda>b. insert_span raises b
                  (foldl (replace_step (block_text b)) (block_text b) mods)) bs))"
  by (induction bs) (simp_all add: apply_replacements_foldl [OF assms])

lemma insert_text_calls: "\<forall>c\<in>set (insert_span raises b t). is_insert_text c"
  by (auto simp: insert_span_def draw_calls_def primary_call_def fallback_call_def
      is_insert_text_def split: prod.splits)

lemma highlight_blocks_target:
  "map_of m ''text_to_highlight'' = Some target \<Longrightarrow>
     highlight_blocks raises m bs =
       Inr (concat (map (\<lambda>b. mark raises (block_bbox b))
              (filter (\<lambda>b. py_in (py_lower target) (py_lower (block_text b))) bs)))"
  by (induction bs) simp_all

lemma add_highlights_well_formed:
  assumes "\<forall>m\<in>set mods. well_formed_edit m"
  shows "add_highlights raises mods bs = Inr (highlight_marks raises mods bs)"
  using assms
proof (induction mods)
  case Nil
  then show ?case by (simp add: highlight_marks_def)
next
  case (Cons m ms)
  from Cons.prems have wf: "well_formed_edit m" and rest: "\<forall>m\<in>set ms. well_formed_edit m"
    by simp_all
  from wf obtain ty where ty: "map_of m ''type'' = Some ty"
    by (auto simp: well_formed_edit_def split: option.splits)
  have tl: "add_highlights raises ms bs = Inr (highlight_marks raises ms bs)"
    by (rule Cons.IH [OF rest])
  show ?case
  proof (cases "ty = ''highlight''")
    case True
    with wf ty obtain target where tg: "map_of m ''text_to_highlight'' = Some target"
      by (auto simp: well_formed_edit_def)
    from True ty tg tl show ?thesis
      by (simp add: highlight_blocks_target [OF tg] highlight_marks_def mark_def)
  next
    case False
    with ty tl show ?thesis
      by (simp add: highlight_marks_def)
  qed
qed

lemma build_document_well_formed:
  assumes "\<forall>m\<in>set mods. well_formed_edit m"
  shows "build_document raises mods pages =
           Inr (map (\<lambda>p. \<lparr>width = page_width p, height = page_height p,
                   calls = concat (map (\<lambda>b. insert_span raises b
                              (foldl (replace_step (block_text b)) (block_text b) mods))
                              (text_blocks p))
                           @ highlight_marks raises mods (text_blocks p)\<rparr>) pages)"
  by (induction pages)
     (simp_all add: build_page_def draw_blocks_well_formed [OF assms]
        add_highlights_well_formed [OF assms])

lemma concat_map_filter_subset:
  "x \<in> set xs \<Longrightarrow> P x \<Longrightarrow> set (f x) \<subseteq> set (concat (map f (filter P xs)))"
  by auto

lemma highlight_marks_member:
  assumes "m \<in> set mods" and "b \<in> set bs"
      and "map_of m ''type'' = Some ''highlight''"
      and "map_of m ''text_to_highlight'' = Some target"
      and "py_in (py_lower target) (py_lower (block_text b))"
  shows "AddHighlightAnnot (block_bbox b) DEFAULT_HIGHLIGHT_COLOR
           \<in> set (highlight_marks raises mods bs)"
    and "raises (AddHighlightAnnot (block_bbox b) DEFAULT_HIGHLIGHT_COLOR) \<Longrightarrow>
           DrawRect (block_bbox b) DEFAULT_HIGHLIGHT_COLOR 2 \<in> set (highlight_marks raises mods bs)"
proof -
  let ?per_span = "\<lambda>b. if raises (AddHighlightAnnot (block_bbox b) DEFAULT_HIGHLIGHT_COLOR)
                       then [AddHighlightAnnot (block_bbox b) DEFAULT_HIGHLIGHT_COLOR,
                             DrawRect (block_bbox b) DEFAULT_HIGHLIGHT_COLOR 2]
                       else [AddHighlightAnnot (block_bbox b) DEFAULT_HIGHLIGHT_COLOR]"
  let ?per_edit = "\<lambda>m. case map_of m ''text_to_highlight'' of
                       None \<Rightarrow> []
                     | Some target \<Rightarrow>
                         concat (map ?per_span
                           (filter (\<lambda>b. py_in (py_lower target) (py_lower (block_text b))) bs))"
  let ?hit = "\<lambda>b. py_in (py_lower target) (py_lower (block_text b))"
  let ?is_highlight = "\<lambda>m. map_of m ''type'' = Some ''highlight''"
  have edit: "?per_edit m = concat (map ?per_span (filter ?hit bs))"
    by (simp only: assms(4) option.case)
  have "set (?per_span b) \<subseteq> set (concat (map ?per_span (filter ?hit bs)))"
    using concat_map_filter_subset [where x = b and xs = bs and P = ?hit and f = ?per_span]
      assms(2,5) by blast
  with edit have inner: "set (?per_span b) \<subseteq> set (?per_edit m)"
    by (simp only:)
  have marks: "highlight_marks raises mods bs = concat (map ?per_edit (filter ?is_highlight mods))"
    by (simp only: highlight_marks_def)
  have "set (?per_edit m) \<subseteq> set (concat (map ?per_edit (filter ?is_highlight mods)))"
    using concat_map_filter_subset
      [where x = m and xs = mods and P = ?is_highlight and f = ?per_edit]
      assms(1,3) by blast
  with marks have outer: "set (?per_edit m) \<subseteq> set (highlight_marks raises mods bs)"
    by (simp only:)
  from inner outer have per: "set (?per_span b) \<subseteq> set (highlight_marks raises mods bs)"
    by (rule subset_trans)
  have first: "AddHighlightAnnot (block_bbox b) DEFAULT_HIGHLIGHT_COLOR \<in> set (?per_span b)"
    by (cases "raises (AddHighlightAnnot (block_bbox b) DEFAULT_HIGHLIGHT_COLOR)") simp_all
  from first per show "AddHighlightAnnot (block_bbox b) DEFAULT_HIGHLIGHT_COLOR
                   \<in> set (highlight_marks raises mods bs)"
    by (rule subsetD [rotated])
  assume r: "raises (AddHighlightAnnot (block_bbox b) DEFAULT_HIGHLIGHT_COLOR)"
  have second: "DrawRect (block_bbox b) DEFAULT_HIGHLIGHT_COLOR 2 \<in> set (?per_span b)"
    using r by simp
  from second per show "DrawRect (block_bbox b) DEFAULT_HIGHLIGHT_COLOR 2
                   \<in> set (highlight_marks raises mods bs)"
    by (rule subsetD [rotated])
qed

text \<open>
  C6. For edits that carry their keys the document is built, one output page per page, and
  the calls of every output page are calls of \<open>insert_text\<close> followed by the highlight
  calls. For every Highlight edit and every span of the page whose original text contains
  the target, letter case aside, the highlight calls contain the call of the highlight
  annotation on the span's bounding box, and, when that call raises, the call that draws
  the rectangle outline on the same box. The highlight calls are exactly these, edit by edit
  and span by span (\<open>highlight_marks\<close>).
\<close>

theorem highlights_after_text:
  assumes "\<forall>m\<in>set mods. well_formed_edit m"
  shows "\<exists>doc. build_document raises mods pages = Inr doc \<and> length doc = length pages
           \<and> (\<forall>i<length pages. \<exists>tcs hcs.
                 calls (doc ! i) = tcs @ hcs
                 \<and> (\<forall>c\<in>set tcs. is_insert_text c)
                 \<and> hcs = highlight_marks raises mods (text_blocks (pages ! i))
                 \<and> (\<forall>m\<in>set mods. \<forall>b\<in>set (text_blocks (pages ! i)). \<forall>target.
                       map_of m ''type'' = Some ''highlight''
                       \<and> map_of m ''text_to_highlight'' = Some target
                       \<and> py_in (py_lower target) (py_lower (block_text b))
                       \<longrightarrow> AddHighlightAnnot (block_bbox b) DEFAULT_HIGHLIGHT_COLOR \<in> set hcs
                           \<and> (raises (AddHighlightAnnot (block_bbox b) DEFAULT_HIGHLIGHT_COLOR)
                                \<longrightarrow> DrawRect (block_bbox b) DEFAULT_HIGHLIGHT_COLOR 2 \<in> set hcs)))"
proof -
  let ?text = "\<lambda>p. concat (map (\<lambda>b. insert_span raises b
                   (foldl (replace_step (block_text b)) (block_text b) mods)) (text_blocks p))"
  let ?doc = "map (\<lambda>p. \<lparr>width = page_width p, height = page_height p,
                  calls = ?text p @ highlight_marks raises mods (text_blocks p)\<rparr>) pages"
  have "build_document raises mods pages = Inr ?doc"
    by (rule build_document_well_formed [OF assms])
  moreover have "length ?doc = length pages"
    by simp
  moreover have "\<exists>tcs hcs.
      calls (?doc ! i) = tcs @ hcs
      \<and> (\<forall>c\<in>set tcs. is_insert_text c)
      \<and> hcs = highlight_marks raises mods (text_blocks (pages ! i))
      \<and> (\<forall>m\<in>set mods. \<forall>b\<in>set (text_blocks (pages ! i)). \<forall>target.
            map_of m ''type'' = Some ''highlight''
            \<and> map_of m ''text_to_highlight'' = Some target
            \<and> py_in (py_lower target) (py_lower (block_text b))
            \<longrightarrow> AddHighlightAnnot (block_bbox b) DEFAULT_HIGHLIGHT_COLOR \<in> set hcs
                \<and> (raises (AddHighlightAnnot (block_bbox b) DEFAULT_HIGHLIGHT_COLOR)
                     \<longrightarrow> DrawRect (block_bbox b) DEFAULT_HIGHLIGHT_COLOR 2 \<in> set hcs))"
    if "i < length pages" for i
  proof (intro exI conjI)
    show "calls (?doc ! i) = ?text (pages ! i) @ highlight_marks raises mods (text_blocks (pages ! i))"
      using that by simp
    show "\<forall>c\<in>set (?text (pages ! i)). is_insert_text c"
      using insert_text_calls by auto
    show "highlight_marks raises mods (text_blocks (pages ! i))
            = highlight_marks raises mods (text_blocks (pages ! i))"
      by (rule refl)
    show "\<forall>m\<in>set mods. \<forall>b\<in>set (text_blocks (pages ! i)). \<forall>target.
            map_of m ''type'' = Some ''highlight''
            \<and> map_of m ''text_to_highlight'' = Some target
            \<and> py_in (py_lower target) (py_lower (block_text b))
            \<longrightarrow> AddHighlightAnnot (block_bbox b) DEFAULT_HIGHLIGHT_COLOR
                  \<in> set (highlight_marks raises mods (text_blocks (pages ! i)))
                \<and> (raises (AddHighlightAnnot (block_bbox b) DEFAULT_HIGHLIGHT_COLOR)
                     \<longrightarrow> DrawRect (block_bbox b) DEFAULT_HIGHLIGHT_COLOR 2
                           \<in> set (highlight_marks raises mods (text_blocks (pages ! i))))"
      using highlight_marks_member by blast
  qed
  ultimately show ?thesis by blast
qed



text \<open>
  The sample page with a Highlight edit for cost. When no call raises, the page gets the
  two text calls and the annotation call on the box of the second span; when the
  annotation raises, the rectangle call on the same box follows it.
\<close>

theorem highlights_after_text_witness:
  "well_formed_edit [(''type'', ''highlight''), (''text_to_highlight'', ''cost'')]
   \<and> build_document never_raises [[(''type'', ''highlight''), (''text_to_highlight'', ''cost'')]]
         [sample_page]
       = Inr [\<lparr>width = 612, height = 792,
               calls = [InsertText (72, 84) ''Hello'' 12 (Some (ColorTuple 0 0 0)),
                        InsertText (72, 110) ''Total Cost'' 10 (Some (ColorInt 255)),
                        AddHighlightAnnot (72, 100, 150, 110) (ColorTuple 1 1 0)]\<rparr>]
   \<and> build_document annot_raises [[(''type'', ''highlight''), (''text_to_highlight'', ''cost'')]]
         [sample_page]
       = Inr [\<lparr>width = 612, height = 792,
               calls = [InsertText (72, 84) ''Hello'' 12 (Some (ColorTuple 0 0 0)),
                        InsertText (72, 110) ''Total Cost'' 10 (Some (ColorInt 255)),
                        AddHighlightAnnot (72, 100, 150, 110) (ColorTuple 1 1 0),
                        DrawRect (72, 100, 150, 110) (ColorTuple 1 1 0) 2]\<rparr>]"
proof -
  let ?m = "[(''type'', ''highlight''), (''text_to_highlight'', ''cost'')]"
  let ?texts = "[InsertText (72, 84) ''Hello'' 12 (Some (ColorTuple 0 0 0)),
                 InsertText (72, 110) ''Total Cost'' 10 (Some (ColorInt 255))]"
  let ?box = "(72, 100, 150, 110) :: bbox"
  have wf1: "well_formed_edit ?m"
    by (simp add: well_formed_edit_def)
  then have wf: "\<forall>m\<in>set [?m]. well_formed_edit m"
    by simp
  have low: "py_lower ''cost'' = ''cost''" "py_lower ''Hello'' = ''hello''"
    "py_lower ''Total Cost'' = ''total cost''"
    by (simp_all add: py_lower_def lower_char_def)
  have marks_ok: "highlight_marks never_raises [?m] (text_blocks sample_page)
                    = [AddHighlightAnnot ?box (ColorTuple 1 1 0)]"
    by (simp add: highlight_marks_def sample_page_def hello_block_def cost_block_def low
        never_raises_def DEFAULT_HIGHLIGHT_COLOR_def)
  have marks_raise: "highlight_marks annot_raises [?m] (text_blocks sample_page)
                       = [AddHighlightAnnot ?box (ColorTuple 1 1 0),
                          DrawRect ?box (ColorTuple 1 1 0) 2]"
    by (simp add: highlight_marks_def sample_page_def hello_block_def cost_block_def low
        annot_raises_def DEFAULT_HIGHLIGHT_COLOR_def)
  have texts_ok: "draw_blocks never_raises [?m] (text_blocks sample_page) = Inr ?texts"
    by (simp add: sample_page_def hello_block_def cost_block_def insert_span_def
        draw_calls_def primary_call_def py_strip_def is_space_def never_raises_def
        DEFAULT_TEXT_COLOR_def)
  have texts_raise: "draw_blocks annot_raises [?m] (text_blocks sample_page) = Inr ?texts"
    by (simp add: sample_page_def hello_block_def cost_block_def insert_span_def
        draw_calls_def primary_call_def py_strip_def is_space_def annot_raises_def
        DEFAULT_TEXT_COLOR_def)
  have hl_ok: "add_highlights never_raises [?m] (text_blocks sample_page)
                 = Inr (highlight_marks never_raises [?m] (text_blocks sample_page))"
    by (rule add_highlights_well_formed [OF wf])
  have hl_raise: "add_highlights annot_raises [?m] (text_blocks sample_page)
                    = Inr (highlight_marks annot_raises [?m] (text_blocks sample_page))"
    by (rule add_highlights_well_formed [OF wf])
  have page_ok: "build_page never_raises [?m] sample_page
                   = Inr \<lparr>width = page_width sample_page, height = page_height sample_page,
                          calls = ?texts @ [AddHighlightAnnot ?box (ColorTuple 1 1 0)]\<rparr>"
    unfolding build_page_def texts_ok hl_ok marks_ok by simp
  have page_raise: "build_page annot_raises [?m] sample_page
                      = Inr \<lparr>width = page_width sample_page, height = page_height sample_page,
                             calls = ?texts @ [AddHighlightAnnot ?box (ColorTuple 1 1 0),
                                               DrawRect ?box (ColorTuple 1 1 0) 2]\<rparr>"
    unfolding build_page_def texts_raise hl_raise marks_raise by simp
  from highlights_after_text [OF wf, of never_raises "[sample_page]"]
  obtain doc1 where d1: "build_document never_raises [?m] [sample_page] = Inr doc1"
    by blast
  from highlights_after_text [OF wf, of annot_raises "[sample_page]"]
  obtain doc2 where d2: "build_document annot_raises [?m] [sample_page] = Inr doc2"
    by blast
  from d1 page_ok have "doc1 = [\<lparr>width = 612, height = 792,
                                 calls = ?texts @ [AddHighlightAnnot ?box (ColorTuple 1 1 0)]\<rparr>]"
    by (simp add: sample_page_def)
  moreover from d2 page_raise
  have "doc2 = [\<lparr>width = 612, height = 792,
                  calls = ?texts @ [AddHighlightAnnot ?box (ColorTuple 1 1 0),
                                    DrawRect ?box (ColorTuple 1 1 0) 2]\<rparr>]"
    by (simp add: sample_page_def)
  ultimately show ?thesis
    using d1 d2 wf1 by simp
qed

section \<open>Missing keys\<close>

text \<open>
  C10 (as the code has it). When an edit lacks a key that the program reads (\<open>type\<close> with
  at least one page; \<open>original_text\<close> of a replace edit, or \<open>text_to_highlight\<close> of a
  highlight edit, with at least one span on some page; \<open>new_text\<close> of a replace edit whose
  \<open>original_text\<close> is in some span), \<open>apply_modifications_to_pdf\<close> returns False and
  \<open>generate_modified_pdf\<close> returns the empty byte string.
\<close>

theorem missing_field_fails_generation:
  assumes "missing_field_read pages mods"
  shows "\<not> fst (apply_modifications_to_pdf raises save pages mods output_path fs)
         \<and> fst (generate_modified_pdf raises save temp_path pages mods fs) = []"
proof -
  from assms have "isl (build_document raises mods pages)"
    by (simp add: build_document_fails_iff)
  then obtain e where "build_document raises mods pages = Inl e"
    by (cases "build_document raises mods pages") simp_all
  then show ?thesis
    by (simp add: apply_modifications_to_pdf_def generate_modified_pdf_def)
qed

theorem missing_field_fails_generation_witness:
  "missing_field_read [sample_page] [[(''type'', ''replace''), (''original_text'', ''Hello'')]]
   \<and> \<not> fst (apply_modifications_to_pdf never_raises save_ok [sample_page]
              [[(''type'', ''replace''), (''original_text'', ''Hello'')]] ''out.pdf'' no_files)
   \<and> fst (generate_modified_pdf never_raises save_ok ''tmp.pdf'' [sample_page]
            [[(''type'', ''replace''), (''original_text'', ''Hello'')]] no_files) = []"
proof -
  have h: "missing_field_read [sample_page]
             [[(''type'', ''replace''), (''original_text'', ''Hello'')]]"
    by (simp add: missing_field_read_def sample_page_def hello_block_def)
  from missing_field_fails_generation [OF h] h show ?thesis
    by simp
qed

text \<open>
  C10 as stated fails: a highlight edit without \<open>text_to_highlight\<close>, on a document whose
  only page has no span, is passed over; the generation succeeds and returns the bytes of
  the saved document.
\<close>

theorem highlight_without_target_on_blank_page:
  "fst (apply_modifications_to_pdf never_raises save_ok [blank_page]
          [[(''type'', ''highlight'')]] ''out.pdf'' no_files)
   \<and> fst (generate_modified_pdf never_raises save_ok ''tmp.pdf'' [blank_page]
            [[(''type'', ''highlight'')]] no_files) = ''%PDF''"
  by (simp add: apply_modifications_to_pdf_def generate_modified_pdf_def build_page_def
      blank_page_def save_ok_def)

section \<open>The temporary file\<close>

text \<open>
  On the path where \<open>success\<close> is True the temporary file is removed; on the path where it is
  False the file stays, empty as it was created.
\<close>

lemma generate_failure_keeps_temp_file:
  assumes "\<not> fst (apply_modifications_to_pdf raises save pages mods temp_path
                     (fs(temp_path \<mapsto> [])))"
  shows "generate_modified_pdf raises save temp_path pages mods fs = ([], fs(temp_path \<mapsto> []))"
  using assms
  by (auto simp: generate_modified_pdf_def apply_modifications_to_pdf_def
      split: sum.splits option.splits)

lemma generate_success_removes_temp_file:
  assumes "fst (apply_modifications_to_pdf raises save pages mods temp_path
                  (fs(temp_path \<mapsto> [])))"
  shows "snd (generate_modified_pdf raises save temp_path pages mods fs) temp_path = None"
  using assms
  by (auto simp: generate_modified_pdf_def apply_modifications_to_pdf_def
      split: sum.splits option.splits)

text \<open>
  C4 (the code at a failing input). With one blank page and an edit that is the empty dict,
  reading \<open>type\<close> raises, \<open>apply_modifications_to_pdf\<close> returns False, and
  \<open>generate_modified_pdf\<close> returns the empty byte string with the temporary file still in
  place: \<open>os.unlink\<close> is not reached.
\<close>

theorem temp_file_left_on_failure:
  "generate_modified_pdf raises save temp_path [blank_page] [[]] fs
     = ([], fs(temp_path \<mapsto> []))"
  by (simp add: generate_modified_pdf_def apply_modifications_to_pdf_def build_page_def
      blank_page_def)

section \<open>The edit proposer\<close>

lemma get_llm_modifications_returns:
  "\<exists>r. get_llm_modifications generate_content json_loads original_text query = Inr r"
  by (simp add: get_llm_modifications_def split: sum.splits)

text \<open>
  C5. When the model answers and \<open>json.loads\<close> raises on the answer with its code fence
  removed, the function does not raise (its result is an \<open>Inr\<close>). It returns the edit set
  of \<open>create_fallback_modification\<close> for the same text and instruction when the exception
  is \<open>JSONDecodeError\<close>, and the dict with an empty \<open>modifications\<close> list and the summary
  Error occurred when it is any other exception, which only the outer handler catches.
\<close>

theorem malformed_response_never_raises:
  assumes "generate_content (take 2000 original_text) query = Some response"
      and "json_loads (strip_fences response) = Inl e"
  shows "get_llm_modifications generate_content json_loads original_text query
           = Inr (Edits (if e = JSONDecodeError
                         then create_fallback_modification original_text query
                         else \<lparr>modifications = [], summary = ''Error occurred''\<rparr>))"
  using assms by (simp add: get_llm_modifications_def llm_try_def error_result_def)

text \<open>
  The fenced answer with a parser that raises \<open>JSONDecodeError\<close> gives the fallback edit
  set, here one Highlight edit; with a parser that raises \<open>RecursionError\<close> it gives the
  error result.
\<close>

theorem malformed_response_never_raises_witness:
  "fenced_reply (take 2000 ''Budget report'') ''highlight money''
     = Some ''```json I cannot do that ```''
   \<and> strip_fences ''```json I cannot do that ```'' = ''I cannot do that''
   \<and> rejects (strip_fences ''```json I cannot do that ```'') = Inl JSONDecodeError
   \<and> get_llm_modifications fenced_reply rejects ''Budget report'' ''highlight money''
       = Inr (Edits \<lparr>modifications =
                       [[(''type'', ''highlight''), (''text_to_highlight'', ''budget''),
                         (''context'', ''Found financial term: budget''),
                         (''reason'', ''Contains financial content'')]],
                     summary = ''Fallback modification created for: highlight money''\<rparr>)
   \<and> overflows (strip_fences ''```json I cannot do that ```'') = Inl RecursionError
   \<and> get_llm_modifications fenced_reply overflows ''Budget report'' ''highlight money''
       = Inr (Edits \<lparr>modifications = [], summary = ''Error occurred''\<rparr>)"
proof -
  have g: "fenced_reply (take 2000 ''Budget report'') ''highlight money''
             = Some ''```json I cannot do that ```''"
    by (simp add: fenced_reply_def)
  have j: "rejects (strip_fences ''```json I cannot do that ```'') = Inl JSONDecodeError"
    by (simp add: rejects_def)
  have k: "overflows (strip_fences ''```json I cannot do that ```'') = Inl RecursionError"
    by (simp add: overflows_def)
  have s: "strip_fences ''```json I cannot do that ```'' = ''I cannot do that''"
    by (simp add: strip_fences_def py_strip_def is_space_def startswith_def endswith_def
        suffix_def Let_def)
  have f: "create_fallback_modification ''Budget report'' ''highlight money''
             = \<lparr>modifications =
                  [[(''type'', ''highlight''), (''text_to_highlight'', ''budget''),
                    (''context'', ''Found financial term: budget''),
                    (''reason'', ''Contains financial content'')]],
                summary = ''Fallback modification created for: highlight money''\<rparr>"
    by (simp add: create_fallback_modification_def fallback_replace_def fallback_highlight_def
        financial_terms_def py_lower_def lower_char_def highlight_edit_def)
  from malformed_response_never_raises
         [where generate_content = fenced_reply and json_loads = rejects, OF g j]
       malformed_response_never_raises
         [where generate_content = fenced_reply and json_loads = overflows, OF g k]
       g j k s f
  show ?thesis
    by simp
qed

end
